theory Spec2Isabelle
  imports Complex_Main
begin

section \<open>The generic SMC step of \<open>blackjax/smc/base.py\<close>\<close>

text \<open>
  The module holds two functions, \<open>init\<close> and \<open>step\<close>, over a population of weighted
  particles. Arithmetic is exact: an array of floats is a list of reals, so rounding,
  infinities and NaN are outside the model. The one place where this is visible is
  \<open>ln 0\<close>: HOL fixes it to \<open>0\<close> where the float code yields \<open>-inf\<close>; in \<open>step\<close> it arises
  only for a prior population of size \<open>0\<close>. For the one property that is about rounding,
  the arithmetic of \<open>step\<close> is given a second time in binary32 (\<open>step32\<close>).
\<close>

subsection \<open>Errors\<close>

text \<open>
  An exception is a value. \<open>IndexError\<close> is what Python and JAX raise on an index that
  cannot be read, \<open>ValueError\<close> what an unpacking of the wrong length or a negative count
  raises, and \<open>Raised s\<close> is any exception of an injected function.
\<close>

datatype error = IndexError | ValueError | Raised string

subsection \<open>Particle trees\<close>

text \<open>
  A leaf of the particle tree is an array. Its leading axis ranges over the particles, so
  an array of shape \<open>(n, ...)\<close> is the list of its \<open>n\<close> rows, a row being whatever the
  trailing axes hold. A 0-dimensional array has no leading axis.
\<close>

datatype 'a leaf = Scalar 'a | Rows "'a list"

text \<open>
  A pytree is a leaf or an ordered container of pytrees (a tuple, a list, a dict in the
  order of its keys; \<open>None\<close> is the container with no children).
\<close>

datatype 'l tree = Leaf 'l | Node "'l tree list"

type_synonym 'a particles = "'a leaf tree"

text \<open>\<open>jax.tree_util.tree_flatten(t)[0]\<close>: the leaves, left to right.\<close>

fun tree_leaves :: "'l tree \<Rightarrow> 'l list" where
  "tree_leaves (Leaf x) = [x]"
| "tree_leaves (Node ts) = concat (map tree_leaves ts)"

text \<open>
  \<open>jax.tree_map(f, t)\<close>: \<open>f\<close> on every leaf, left to right, the containers rebuilt around
  the results. An exception of \<open>f\<close> ends the traversal.
\<close>

fun tree_map :: "('l \<Rightarrow> error + 'm) \<Rightarrow> 'l tree \<Rightarrow> error + 'm tree"
  and tree_map_children :: "('l \<Rightarrow> error + 'm) \<Rightarrow> 'l tree list \<Rightarrow> error + 'm tree list"
where
  "tree_map f (Leaf x) = (case f x of Inl e \<Rightarrow> Inl e | Inr y \<Rightarrow> Inr (Leaf y))"
| "tree_map f (Node ts) =
     (case tree_map_children f ts of Inl e \<Rightarrow> Inl e | Inr us \<Rightarrow> Inr (Node us))"
| "tree_map_children f [] = Inr []"
| "tree_map_children f (t # ts) =
     (case tree_map f t of
        Inl e \<Rightarrow> Inl e
      | Inr u \<Rightarrow>
          (case tree_map_children f ts of Inl e \<Rightarrow> Inl e | Inr us \<Rightarrow> Inr (u # us)))"

text \<open>\<open>x.shape[0]\<close>: the size of the leading axis; a 0-dimensional array has none.\<close>

fun leading_dim :: "'a leaf \<Rightarrow> error + nat" where
  "leading_dim (Scalar a) = Inl IndexError"
| "leading_dim (Rows xs) = Inr (length xs)"

text \<open>
  The data model's invariant on a particle tree: it has a leaf, and every leaf has
  leading dimension \<open>n\<close>.
\<close>

definition has_count :: "'a particles \<Rightarrow> nat \<Rightarrow> bool" where
  "has_count t n \<longleftrightarrow>
     tree_leaves t \<noteq> [] \<and> list_all (\<lambda>l. leading_dim l = Inr n) (tree_leaves t)"

subsection \<open>The population and the report\<close>

record 'a SMCState =
  particles :: "'a particles"
  weights :: "real list"

record 'u SMCInfo =
  ancestors :: "int list"
  log_likelihood_increment :: real
  update_info :: 'u

subsection \<open>\<open>init\<close>\<close>

text \<open>
  \<^verbatim>\<open>
  num_particles = jax.tree_util.tree_flatten(particles)[0][0].shape[0]
  weights = jnp.ones(num_particles) / num_particles
  return SMCState(particles, weights)
  \<close>
  \<open>[0]\<close> on an empty list of leaves raises, and so does \<open>.shape[0]\<close> on a 0-dimensional
  leaf. No other leaf is looked at.
\<close>

definition init :: "'a particles \<Rightarrow> error + 'a SMCState" where
  "init ps =
     (case tree_leaves ps of
        [] \<Rightarrow> Inl IndexError
      | first # _ \<Rightarrow>
          (case leading_dim first of
             Inl e \<Rightarrow> Inl e
           | Inr num_particles \<Rightarrow>
               Inr \<lparr>particles = ps,
                    weights = map (\<lambda>w. w / real num_particles) (replicate num_particles 1)\<rparr>))"

subsection \<open>Library operations used by \<open>step\<close>\<close>

text \<open>
  \<open>x[idx]\<close> for a JAX array \<open>x\<close> and an integer array \<open>idx\<close> is a gather along the
  leading axis. JAX normalises an index \<open>i\<close> on an axis of size \<open>n\<close> by adding \<open>n\<close> when
  \<open>i < 0\<close> and then clamps it into \<open>[0, n - 1]\<close>: an out-of-range index does not raise.
\<close>

definition gather_index :: "nat \<Rightarrow> int \<Rightarrow> nat" where
  "gather_index n i =
     (let j = (if i < 0 then i + int n else i) in nat (max 0 (min j (int n - 1))))"

text \<open>
  The row that the gather reads for one index. An axis of size 0 has no row to read.
\<close>

definition row_at :: "'a list \<Rightarrow> int \<Rightarrow> error + 'a" where
  "row_at xs i = (if xs = [] then Inl IndexError else Inr (xs ! gather_index (length xs) i))"

text \<open>
  \<open>lambda x: x[resampling_idx]\<close>. A 0-dimensional array cannot be indexed, and nothing
  can be gathered from an axis of size 0.
\<close>

fun index_leaf :: "'a leaf \<Rightarrow> int list \<Rightarrow> error + 'a leaf" where
  "index_leaf (Scalar a) idx = Inl IndexError"
| "index_leaf (Rows xs) idx =
     (if xs = [] \<and> idx \<noteq> [] then Inl IndexError
      else Inr (Rows (map (\<lambda>i. xs ! gather_index (length xs) i) idx)))"

text \<open>
  \<open>jax.scipy.special.logsumexp\<close> on a vector: the maximum is subtracted before
  exponentiating and added back after the logarithm; for an empty vector the shift is 0.
  Its value on the empty vector is not used by \<open>step\<close>: see \<open>logsumexp_call\<close>.
\<close>

definition logsumexp :: "real list \<Rightarrow> real" where
  "logsumexp a =
     (let amax = (if a = [] then 0 else Max (set a))
      in ln (sum_list (map (\<lambda>x. exp (x - amax)) a)) + amax)"

text \<open>
  The call of \<open>logsumexp\<close> in \<open>step\<close>. On an empty vector the library returns no real
  number: in the JAX releases up to 0.4.26 (the source calls \<open>jax.tree_map\<close>, deprecated
  since that release) the maximum of an empty array raises \<open>ValueError\<close>; later releases
  return \<open>-inf\<close>. In both cases \<open>step\<close> returns no real-valued report, and the model has the
  exception.
\<close>

definition logsumexp_call :: "real list \<Rightarrow> error + real" where
  "logsumexp_call a = (if a = [] then Inl ValueError else Inr (logsumexp a))"

text \<open>
  \<open>jax.random.split(key, num)\<close>. The key type and the derivation of sub-keys are the
  library's: \<open>split\<close> is a parameter of the model, a function of the key and the count.
  A negative count is rejected.
\<close>

definition random_split :: "('k \<Rightarrow> nat \<Rightarrow> 'k list) \<Rightarrow> 'k \<Rightarrow> int \<Rightarrow> error + 'k list" where
  "random_split split key num = (if num < 0 then Inl ValueError else Inr (split key (nat num)))"

subsection \<open>\<open>step\<close>\<close>

text \<open>
  \<^verbatim>\<open>
  if num_resampled is None:
      num_resampled = num_particles
  \<close>
\<close>

definition default_num_resampled :: "int option \<Rightarrow> nat \<Rightarrow> int" where
  "default_num_resampled num_resampled num_particles =
     (case num_resampled of None \<Rightarrow> int num_particles | Some m \<Rightarrow> m)"

text \<open>
  \<^verbatim>\<open>
  updating_key, resampling_key = jax.random.split(rng_key, 2)
  num_particles = state.weights.shape[0]
  if num_resampled is None:
      num_resampled = num_particles
  resampling_idx = resample_fn(resampling_key, state.weights, num_resampled)
  particles = jax.tree_map(lambda x: x[resampling_idx], state.particles)
  keys = jax.random.split(updating_key, num_resampled)
  particles, update_info = update_fn(keys, particles)
  log_weights = weight_fn(particles)
  logsum_weights = jax.scipy.special.logsumexp(log_weights)
  normalizing_constant = logsum_weights - jnp.log(num_particles)
  weights = jnp.exp(log_weights - logsum_weights)
  return SMCState(particles, weights), SMCInfo(
      resampling_idx, normalizing_constant, update_info)
  \<close>
  The three injected functions may raise; the exception leaves \<open>step\<close> unchanged. The
  unpacking of the first split raises unless it yields two keys, and \<open>logsumexp\<close> raises on
  an empty vector of log-weights.
\<close>

definition step ::
  "('k \<Rightarrow> nat \<Rightarrow> 'k list) \<Rightarrow> 'k \<Rightarrow> 'a SMCState
   \<Rightarrow> ('k list \<Rightarrow> 'a particles \<Rightarrow> error + 'a particles \<times> 'u)
   \<Rightarrow> ('a particles \<Rightarrow> error + real list)
   \<Rightarrow> ('k \<Rightarrow> real list \<Rightarrow> int \<Rightarrow> error + int list)
   \<Rightarrow> int option \<Rightarrow> error + 'a SMCState \<times> 'u SMCInfo" where
  "step split rng_key state update_fn weight_fn resample_fn num_resampled =
     (case random_split split rng_key 2 of
        Inl e \<Rightarrow> Inl e
      | Inr [updating_key, resampling_key] \<Rightarrow>
          (let num_particles = length (weights state);
               num_resampled = default_num_resampled num_resampled num_particles
           in case resample_fn resampling_key (weights state) num_resampled of
                Inl e \<Rightarrow> Inl e
              | Inr resampling_idx \<Rightarrow>
                  (case tree_map (\<lambda>x. index_leaf x resampling_idx) (particles state) of
                     Inl e \<Rightarrow> Inl e
                   | Inr gathered \<Rightarrow>
                       (case random_split split updating_key num_resampled of
                          Inl e \<Rightarrow> Inl e
                        | Inr keys \<Rightarrow>
                            (case update_fn keys gathered of
                               Inl e \<Rightarrow> Inl e
                             | Inr (new_particles, upd_info) \<Rightarrow>
                                 (case weight_fn new_particles of
                                    Inl e \<Rightarrow> Inl e
                                  | Inr log_weights \<Rightarrow>
                                      (case logsumexp_call log_weights of
                                         Inl e \<Rightarrow> Inl e
                                       | Inr logsum_weights \<Rightarrow>
                                           (let normalizing_constant =
                                                  logsum_weights - ln (real num_particles);
                                                new_weights =
                                                  map (\<lambda>l. exp (l - logsum_weights))
                                                    log_weights
                                            in Inr (\<lparr>particles = new_particles,
                                                     weights = new_weights\<rparr>,
                                                    \<lparr>ancestors = resampling_idx,
                                                     log_likelihood_increment =
                                                       normalizing_constant,
                                                     update_info = upd_info\<rparr>))))))))
      | Inr _ \<Rightarrow> Inl ValueError)"

subsection \<open>Agreement of two particle trees at a vector of indices\<close>

text \<open>
  Two leaves agree at the indices \<open>idx\<close> when they are arrays of the same kind and the
  gather reads the same row from both at every index of \<open>idx\<close>. Two trees agree when
  they have the same shape and their leaves agree pairwise.
\<close>

fun agree_leaf :: "int list \<Rightarrow> 'a leaf \<Rightarrow> 'a leaf \<Rightarrow> bool" where
  "agree_leaf idx (Rows xs) (Rows ys) = list_all (\<lambda>i. row_at xs i = row_at ys i) idx"
| "agree_leaf idx (Scalar a) (Scalar b) = True"
| "agree_leaf idx _ _ = False"

fun agree_at :: "int list \<Rightarrow> 'a particles \<Rightarrow> 'a particles \<Rightarrow> bool"
  and agree_at_children :: "int list \<Rightarrow> 'a particles list \<Rightarrow> 'a particles list \<Rightarrow> bool"
where
  "agree_at idx (Leaf a) (Leaf b) = agree_leaf idx a b"
| "agree_at idx (Node ts) (Node us) = agree_at_children idx ts us"
| "agree_at idx (Leaf a) (Node us) = False"
| "agree_at idx (Node ts) (Leaf b) = False"
| "agree_at_children idx [] [] = True"
| "agree_at_children idx (t # ts) (u # us) = (agree_at idx t u \<and> agree_at_children idx ts us)"
| "agree_at_children idx [] (u # us) = False"
| "agree_at_children idx (t # ts) [] = False"


subsection \<open>\<open>step\<close> with injected callables that need not be functions\<close>

text \<open>
  A Python callable may answer the same call differently on two occasions. Here an
  injected callable is a relation between its arguments and its possible outcomes (a
  result or an exception), and \<open>step_rel\<close> relates the arguments of \<open>step\<close> to its
  possible outcomes: one rule for each exit of the body above, in its order.
\<close>

inductive step_rel ::
  "('k \<Rightarrow> nat \<Rightarrow> 'k list) \<Rightarrow> 'k \<Rightarrow> 'a SMCState
   \<Rightarrow> ('k list \<Rightarrow> 'a particles \<Rightarrow> error + 'a particles \<times> 'u \<Rightarrow> bool)
   \<Rightarrow> ('a particles \<Rightarrow> error + real list \<Rightarrow> bool)
   \<Rightarrow> ('k \<Rightarrow> real list \<Rightarrow> int \<Rightarrow> error + int list \<Rightarrow> bool)
   \<Rightarrow> int option \<Rightarrow> error + 'a SMCState \<times> 'u SMCInfo \<Rightarrow> bool"
  for split rng_key state update_fn weight_fn resample_fn num_resampled
where
  split_raises:
    "random_split split rng_key 2 = Inl e
     \<Longrightarrow> step_rel split rng_key state update_fn weight_fn resample_fn num_resampled (Inl e)"
| unpack_raises:
    "random_split split rng_key 2 = Inr ks \<Longrightarrow> length ks \<noteq> 2
     \<Longrightarrow> step_rel split rng_key state update_fn weight_fn resample_fn num_resampled
           (Inl ValueError)"
| resample_raises:
    "random_split split rng_key 2 = Inr [updating_key, resampling_key]
     \<Longrightarrow> resample_fn resampling_key (weights state)
           (default_num_resampled num_resampled (length (weights state))) (Inl e)
     \<Longrightarrow> step_rel split rng_key state update_fn weight_fn resample_fn num_resampled (Inl e)"
| gather_raises:
    "random_split split rng_key 2 = Inr [updating_key, resampling_key]
     \<Longrightarrow> resample_fn resampling_key (weights state)
           (default_num_resampled num_resampled (length (weights state))) (Inr resampling_idx)
     \<Longrightarrow> tree_map (\<lambda>x. index_leaf x resampling_idx) (particles state) = Inl e
     \<Longrightarrow> step_rel split rng_key state update_fn weight_fn resample_fn num_resampled (Inl e)"
| keys_raise:
    "random_split split rng_key 2 = Inr [updating_key, resampling_key]
     \<Longrightarrow> resample_fn resampling_key (weights state)
           (default_num_resampled num_resampled (length (weights state))) (Inr resampling_idx)
     \<Longrightarrow> tree_map (\<lambda>x. index_leaf x resampling_idx) (particles state) = Inr gathered
     \<Longrightarrow> random_split split updating_key
           (default_num_resampled num_resampled (length (weights state))) = Inl e
     \<Longrightarrow> step_rel split rng_key state update_fn weight_fn resample_fn num_resampled (Inl e)"
| update_raises:
    "random_split split rng_key 2 = Inr [updating_key, resampling_key]
     \<Longrightarrow> resample_fn resampling_key (weights state)
           (default_num_resampled num_resampled (length (weights state))) (Inr resampling_idx)
     \<Longrightarrow> tree_map (\<lambda>x. index_leaf x resampling_idx) (particles state) = Inr gathered
     \<Longrightarrow> random_split split updating_key
           (default_num_resampled num_resampled (length (weights state))) = Inr keys
     \<Longrightarrow> update_fn keys gathered (Inl e)
     \<Longrightarrow> step_rel split rng_key state update_fn weight_fn resample_fn num_resampled (Inl e)"
| weight_raises:
    "random_split split rng_key 2 = Inr [updating_key, resampling_key]
     \<Longrightarrow> resample_fn resampling_key (weights state)
           (default_num_resampled num_resampled (length (weights state))) (Inr resampling_idx)
     \<Longrightarrow> tree_map (\<lambda>x. index_leaf x resampling_idx) (particles state) = Inr gathered
     \<Longrightarrow> random_split split updating_key
           (default_num_resampled num_resampled (length (weights state))) = Inr keys
     \<Longrightarrow> update_fn keys gathered (Inr (new_particles, upd_info))
     \<Longrightarrow> weight_fn new_particles (Inl e)
     \<Longrightarrow> step_rel split rng_key state update_fn weight_fn resample_fn num_resampled (Inl e)"
| logsumexp_raises:
    "random_split split rng_key 2 = Inr [updating_key, resampling_key]
     \<Longrightarrow> resample_fn resampling_key (weights state)
           (default_num_resampled num_resampled (length (weights state))) (Inr resampling_idx)
     \<Longrightarrow> tree_map (\<lambda>x. index_leaf x resampling_idx) (particles state) = Inr gathered
     \<Longrightarrow> random_split split updating_key
           (default_num_resampled num_resampled (length (weights state))) = Inr keys
     \<Longrightarrow> update_fn keys gathered (Inr (new_particles, upd_info))
     \<Longrightarrow> weight_fn new_particles (Inr log_weights)
     \<Longrightarrow> logsumexp_call log_weights = Inl e
     \<Longrightarrow> step_rel split rng_key state update_fn weight_fn resample_fn num_resampled (Inl e)"
| returns:
    "random_split split rng_key 2 = Inr [updating_key, resampling_key]
     \<Longrightarrow> resample_fn resampling_key (weights state)
           (default_num_resampled num_resampled (length (weights state))) (Inr resampling_idx)
     \<Longrightarrow> tree_map (\<lambda>x. index_leaf x resampling_idx) (particles state) = Inr gathered
     \<Longrightarrow> random_split split updating_key
           (default_num_resampled num_resampled (length (weights state))) = Inr keys
     \<Longrightarrow> update_fn keys gathered (Inr (new_particles, upd_info))
     \<Longrightarrow> weight_fn new_particles (Inr log_weights)
     \<Longrightarrow> logsumexp_call log_weights = Inr logsum_weights
     \<Longrightarrow> step_rel split rng_key state update_fn weight_fn resample_fn num_resampled
           (Inr (\<lparr>particles = new_particles,
                  weights = map (\<lambda>l. exp (l - logsum_weights)) log_weights\<rparr>,
                 \<lparr>ancestors = resampling_idx,
                  log_likelihood_increment =
                    logsum_weights - ln (real (length (weights state))),
                  update_info = upd_info\<rparr>))"


subsection \<open>Concrete inputs\<close>

text \<open>
  Keys are natural numbers. The resampler below returns as many indices as requested,
  all in range; the update keeps the particles when there is one per key; the weight
  function reads the log-weights from the first leaf.
\<close>

definition ex_split :: "nat \<Rightarrow> nat \<Rightarrow> nat list" where
  "ex_split key n = map (\<lambda>i. key * n + i) [0..<n]"

definition ex_resample :: "nat \<Rightarrow> real list \<Rightarrow> int \<Rightarrow> error + int list" where
  "ex_resample key w m =
     (if m < 0 \<or> (w = [] \<and> m \<noteq> 0) then Inl (Raised ''resample'')
      else Inr (map (\<lambda>i. int ((key + i) mod length w)) [0..<nat m]))"

definition ex_update :: "nat list \<Rightarrow> real particles \<Rightarrow> error + real particles \<times> nat" where
  "ex_update keys ps =
     (if has_count ps (length keys) then Inr (ps, length keys) else Inl (Raised ''update''))"

definition ex_weight :: "real particles \<Rightarrow> error + real list" where
  "ex_weight ps =
     (case tree_leaves ps of Rows xs # _ \<Rightarrow> Inr xs | _ \<Rightarrow> Inl (Raised ''weight''))"

definition ex_state :: "real SMCState" where
  "ex_state =
     \<lparr>particles = Node [Leaf (Rows [0, 0]), Leaf (Rows [5, 7])], weights = [1 / 2, 1 / 2]\<rparr>"

text \<open>
  A waste-free update: from the resampled particles it returns \<open>n\<close> particles, cycling
  through the rows of every leaf.
\<close>

fun expand_leaf :: "nat \<Rightarrow> 'a leaf \<Rightarrow> 'a leaf" where
  "expand_leaf n (Scalar a) = Scalar a"
| "expand_leaf n (Rows xs) = Rows (map (\<lambda>i. xs ! (i mod length xs)) [0..<n])"

definition ex_expand :: "nat \<Rightarrow> nat list \<Rightarrow> real particles \<Rightarrow> error + real particles \<times> nat" where
  "ex_expand n keys ps =
     (if has_count ps (length keys) \<and> keys \<noteq> []
      then Inr (map_tree (expand_leaf n) ps, length keys)
      else Inl (Raised ''update''))"

text \<open>
  A second population, which differs from the first in particle 0 only, and one whose
  only leaf is 0-dimensional.
\<close>

definition ex_state2 :: "real SMCState" where
  "ex_state2 =
     \<lparr>particles = Node [Leaf (Rows [9, 0]), Leaf (Rows [3, 7])], weights = [1 / 2, 1 / 2]\<rparr>"

definition ex_scalar_state :: "real SMCState" where
  "ex_scalar_state = \<lparr>particles = Node [Leaf (Scalar 4)], weights = [1 / 2, 1 / 2]\<rparr>"

subsection \<open>The arithmetic of \<open>step\<close> in binary32\<close>







section \<open>Auxiliary facts\<close>

subsection \<open>Log-sum-exp\<close>









subsection \<open>\<open>tree_map\<close> and the gather\<close>

lemma tree_map_shape_leaves:
  "tree_map f t = Inr g \<Longrightarrow>
     map_tree (\<lambda>_. ()) g = map_tree (\<lambda>_. ()) t \<and> map Inr (tree_leaves g) = map f (tree_leaves t)"
  "tree_map_children f ts = Inr gs \<Longrightarrow>
     map (map_tree (\<lambda>_. ())) gs = map (map_tree (\<lambda>_. ())) ts
     \<and> map Inr (concat (map tree_leaves gs)) = map f (concat (map tree_leaves ts))"
proof (induction f t and f ts arbitrary: g and gs rule: tree_map_tree_map_children.induct)
  case (1 f x)
  then show ?case by (auto split: sum.splits)
next
  case (2 f ts)
  then show ?case by (auto split: sum.splits)
next
  case (3 f)
  then show ?case by simp
next
  case (4 f t ts)
  then show ?case by (auto split: sum.splits)
qed

lemma tree_map_succeeds:
  "(\<And>x. x \<in> set (tree_leaves t) \<Longrightarrow> \<exists>y. f x = Inr y) \<Longrightarrow> \<exists>g. tree_map f t = Inr g"
  "(\<And>x. x \<in> set (concat (map tree_leaves ts)) \<Longrightarrow> \<exists>y. f x = Inr y)
     \<Longrightarrow> \<exists>gs. tree_map_children f ts = Inr gs"
proof (induction f t and f ts rule: tree_map_tree_map_children.induct)
  case (1 f x)
  then show ?case by (auto split: sum.splits)
next
  case (2 f ts)
  then show ?case by (auto split: sum.splits)
next
  case (3 f)
  then show ?case by simp
next
  case (4 f t ts)
  from 4(3) have "\<exists>g. tree_map f t = Inr g" by (intro 4(1)) auto
  then obtain g where g: "tree_map f t = Inr g" ..
  from 4(3) have "\<exists>gs. tree_map_children f ts = Inr gs" by (intro 4(2) [OF g]) auto
  with g show ?case by auto
qed

lemma index_leaf_count:
  assumes "leading_dim l = Inr n" and "0 < n \<or> idx = []"
  shows "\<exists>l'. index_leaf l idx = Inr l' \<and> leading_dim l' = Inr (length idx)"
  using assms by (cases l) auto

lemma gather_count:
  assumes "has_count t n" and "0 < n \<or> idx = []"
  shows "\<exists>g. tree_map (\<lambda>x. index_leaf x idx) t = Inr g \<and> has_count g (length idx)"
proof -
  have each: "\<exists>l'. index_leaf l idx = Inr l' \<and> leading_dim l' = Inr (length idx)"
    if "l \<in> set (tree_leaves t)" for l
    using that assms index_leaf_count [of l n idx] by (auto simp: has_count_def list_all_iff)
  then have "\<exists>g. tree_map (\<lambda>x. index_leaf x idx) t = Inr g"
    by (intro tree_map_succeeds(1)) blast
  then obtain g where g: "tree_map (\<lambda>x. index_leaf x idx) t = Inr g" ..
  from tree_map_shape_leaves(1) [OF g]
  have ls: "map Inr (tree_leaves g) = map (\<lambda>x. index_leaf x idx) (tree_leaves t)" by simp
  then have len: "length (tree_leaves g) = length (tree_leaves t)"
    by (metis length_map)
  have "leading_dim l' = Inr (length idx)" if "l' \<in> set (tree_leaves g)" for l'
  proof -
    from that have "Inr l' \<in> set (map Inr (tree_leaves g) :: (error + 'a leaf) list)" by simp
    with ls obtain l where "l \<in> set (tree_leaves t)" "index_leaf l idx = Inr l'" by auto
    with each show ?thesis by fastforce
  qed
  with len assms(1) g show ?thesis
    by (auto simp: has_count_def list_all_iff)
qed

lemma agree_leaf_index:
  assumes "agree_leaf idx a b"
  shows "index_leaf a idx = index_leaf b idx"
proof (cases a)
  case (Scalar x)
  with assms show ?thesis by (cases b) auto
next
  case (Rows xs)
  with assms obtain ys where b: "b = Rows ys" by (cases b) auto
  from assms Rows b have rows: "\<And>i. i \<in> set idx \<Longrightarrow> row_at xs i = row_at ys i"
    by (simp add: list_all_iff)
  show ?thesis
  proof (cases "idx = []")
    case True
    with Rows b show ?thesis by simp
  next
    case False
    then obtain i where i: "i \<in> set idx" by (cases idx) auto
    show ?thesis
    proof (cases "xs = []")
      case True
      with rows [OF i] have "ys = []" by (auto simp: row_at_def split: if_splits)
      with True Rows b show ?thesis by simp
    next
      case False
      with rows [OF i] have ys: "ys \<noteq> []" by (auto simp: row_at_def split: if_splits)
      from rows False ys
      have "map (\<lambda>i. xs ! gather_index (length xs) i) idx
            = map (\<lambda>i. ys ! gather_index (length ys) i) idx"
        by (auto simp: row_at_def)
      with False ys Rows b show ?thesis by simp
    qed
  qed
qed

lemma agree_at_gather:
  fixes t u :: "'a particles" and ts us :: "'a particles list"
  shows "agree_at idx t u \<Longrightarrow> tree_map (\<lambda>x. index_leaf x idx) t = tree_map (\<lambda>x. index_leaf x idx) u"
    and "agree_at_children idx ts us \<Longrightarrow>
     tree_map_children (\<lambda>x. index_leaf x idx) ts = tree_map_children (\<lambda>x. index_leaf x idx) us"
proof (induction idx t u and idx ts us rule: agree_at_agree_at_children.induct)
  case (1 idx a b)
  then show ?case by (simp add: agree_leaf_index)
qed (simp_all cong: sum.case_cong)

subsection \<open>The exits of \<open>step\<close>\<close>

lemma step_InrE:
  assumes "step split rng_key state update_fn weight_fn resample_fn num_resampled = Inr (st', info)"
  obtains uk rk idx g ui lw where
    "split rng_key 2 = [uk, rk]"
    "resample_fn rk (weights state)
       (default_num_resampled num_resampled (length (weights state))) = Inr idx"
    "tree_map (\<lambda>x. index_leaf x idx) (particles state) = Inr g"
    "0 \<le> default_num_resampled num_resampled (length (weights state))"
    "update_fn (split uk (nat (default_num_resampled num_resampled (length (weights state))))) g
       = Inr (particles st', ui)"
    "weight_fn (particles st') = Inr lw"
    "lw \<noteq> []"
    "weights st' = map (\<lambda>l. exp (l - logsumexp lw)) lw"
    "info = \<lparr>ancestors = idx,
             log_likelihood_increment = logsumexp lw - ln (real (length (weights state))),
             update_info = ui\<rparr>"
  using assms
  by (auto simp: step_def random_split_def logsumexp_call_def Let_def
           split: sum.splits list.splits if_splits prod.splits)

lemma step_InrI:
  assumes "split rng_key 2 = [uk, rk]"
    and "resample_fn rk (weights state)
           (default_num_resampled num_resampled (length (weights state))) = Inr idx"
    and "tree_map (\<lambda>x. index_leaf x idx) (particles state) = Inr g"
    and "0 \<le> default_num_resampled num_resampled (length (weights state))"
    and "update_fn (split uk (nat (default_num_resampled num_resampled (length (weights state))))) g
           = Inr (ps, ui)"
    and "weight_fn ps = Inr lw"
    and "lw \<noteq> []"
  shows "step split rng_key state update_fn weight_fn resample_fn num_resampled
         = Inr (\<lparr>particles = ps, weights = map (\<lambda>l. exp (l - logsumexp lw)) lw\<rparr>,
                \<lparr>ancestors = idx,
                 log_likelihood_increment = logsumexp lw - ln (real (length (weights state))),
                 update_info = ui\<rparr>)"
  using assms by (simp add: step_def random_split_def logsumexp_call_def Let_def)

text \<open>An exception of the resampler or of the gather is the outcome of \<open>step\<close>.\<close>

lemma step_resample_raises:
  assumes "split rng_key 2 = [uk, rk]"
    and "resample_fn rk (weights state)
           (default_num_resampled num_resampled (length (weights state))) = Inl e"
  shows "step split rng_key state update_fn weight_fn resample_fn num_resampled = Inl e"
  using assms by (simp add: step_def random_split_def Let_def)

lemma step_gather_raises:
  assumes "split rng_key 2 = [uk, rk]"
    and "resample_fn rk (weights state)
           (default_num_resampled num_resampled (length (weights state))) = Inr idx"
    and "tree_map (\<lambda>x. index_leaf x idx) (particles state) = Inl e"
  shows "step split rng_key state update_fn weight_fn resample_fn num_resampled = Inl e"
  using assms by (simp add: step_def random_split_def Let_def)

text \<open>
  When the injected relations are functional, every outcome of \<open>step_rel\<close> is the value of
  \<open>step\<close> on the functions they determine; and on the graphs of three functions
  \<open>step_rel\<close> has the value of \<open>step\<close> among its outcomes.
\<close>

lemma step_rel_functional:
  assumes u: "\<And>keys g y z. update_fn keys g y \<Longrightarrow> update_fn keys g z \<Longrightarrow> z = y"
    and w: "\<And>ps y z. weight_fn ps y \<Longrightarrow> weight_fn ps z \<Longrightarrow> z = y"
    and r: "\<And>k ws m y z. resample_fn k ws m y \<Longrightarrow> resample_fn k ws m z \<Longrightarrow> z = y"
    and a: "step_rel split rng_key state update_fn weight_fn resample_fn num_resampled out"
  shows "out = step split rng_key state (\<lambda>keys g. THE y. update_fn keys g y)
                 (\<lambda>ps. THE y. weight_fn ps y) (\<lambda>k ws m. THE y. resample_fn k ws m y)
                 num_resampled"
proof -
  have U: "(THE z. update_fn keys g z) = y" if "update_fn keys g y" for keys g y
    using that u [OF that] by (rule the_equality)
  have W: "(THE z. weight_fn ps z) = y" if "weight_fn ps y" for ps y
    using that w [OF that] by (rule the_equality)
  have R: "(THE z. resample_fn k ws m z) = y" if "resample_fn k ws m y" for k ws m y
    using that r [OF that] by (rule the_equality)
  from a show ?thesis
    by (cases rule: step_rel.cases)
       (auto simp: step_def Let_def U W R split: list.splits sum.splits)
qed

lemma step_rel_graph:
  "step_rel split rng_key state (\<lambda>keys g y. y = update_fn keys g) (\<lambda>ps y. y = weight_fn ps)
     (\<lambda>k ws m y. y = resample_fn k ws m) num_resampled
     (step split rng_key state update_fn weight_fn resample_fn num_resampled)"
  unfolding step_def
  by (auto split: sum.splits list.splits prod.splits simp: Let_def intro: step_rel.intros)

subsection \<open>The concrete inputs\<close>

lemma tree_leaves_map_tree:
  "tree_leaves (map_tree f t) = map f (tree_leaves t)"
  by (induction t) (simp_all add: map_concat comp_def cong: map_cong)

lemma expand_count:
  assumes "has_count g m" and "0 < m"
  shows "has_count (map_tree (expand_leaf n) g) n"
proof -
  have "leading_dim (expand_leaf n l) = Inr n" if "leading_dim l = Inr m" for l :: "'a leaf"
    using that by (cases l) auto
  with assms(1) show ?thesis
    by (auto simp: has_count_def tree_leaves_map_tree list_all_iff)
qed

lemma ex_weight_count:
  assumes "has_count ps n"
  shows "\<exists>lw. ex_weight ps = Inr lw \<and> length lw = n"
proof -
  from assms obtain l rest where ls: "tree_leaves ps = l # rest"
    by (auto simp: has_count_def neq_Nil_conv)
  with assms have "leading_dim l = Inr n" by (simp add: has_count_def)
  then obtain xs where "l = Rows xs" "length xs = n" by (cases l) auto
  with ls show ?thesis by (simp add: ex_weight_def)
qed

lemma ex_split_length: "length (ex_split k n) = n"
  by (simp add: ex_split_def)

lemma ex_resample_contract:
  assumes "ex_resample k w m = Inr idx"
  shows "int (length idx) = m \<and> list_all (\<lambda>i. 0 \<le> i \<and> i < int (length w)) idx"
proof -
  from assms have m: "0 \<le> m" and w: "w \<noteq> [] \<or> m = 0"
    and idx: "idx = map (\<lambda>i. int ((k + i) mod length w)) [0..<nat m]"
    by (auto simp: ex_resample_def split: if_splits)
  from w show ?thesis
  proof
    assume "w \<noteq> []"
    with m idx show ?thesis by (auto simp: list_all_iff)
  next
    assume "m = 0"
    with idx show ?thesis by simp
  qed
qed

lemma ex_split_3: "ex_split 3 2 = [6, 7]"
  by code_simp

lemma ex_split_6: "ex_split 6 2 = [12, 13]"
  by code_simp

lemma ex_resample_7: "ex_resample 7 [1 / 2, 1 / 2] 2 = Inr [1, 0]"
  by code_simp

lemma ex_gather:
  "tree_map (\<lambda>x. index_leaf x [1, 0]) (Node [Leaf (Rows [0, 0]), Leaf (Rows [5, 7 :: real])])
   = Inr (Node [Leaf (Rows [0, 0]), Leaf (Rows [7, 5])])"
  by (simp add: gather_index_def)

lemma ex_update_2:
  "ex_update [12, 13] (Node [Leaf (Rows [0, 0]), Leaf (Rows [7, 5])])
   = Inr (Node [Leaf (Rows [0, 0]), Leaf (Rows [7, 5])], 2)"
  by (simp add: ex_update_def has_count_def)

lemma ex_weight_2: "ex_weight (Node [Leaf (Rows [0, 0]), Leaf (Rows [7, 5])]) = Inr [0, 0]"
  by (simp add: ex_weight_def)

lemma ex_resample_negative: "ex_resample 7 [1 / 2, 1 / 2] (- 1) = Inl (Raised ''resample'')"
  by (simp add: ex_resample_def)

lemma ex_scalar_gather:
  "tree_map (\<lambda>x. index_leaf x [1, 0]) (Node [Leaf (Scalar (4 :: real))]) = Inl IndexError"
  by simp

lemma ex_resample_one: "ex_resample 7 [1 / 2, 1 / 2] 1 = Inr [1]"
  by code_simp

lemma ex_expand_contract:
  assumes "length keys = Suc 0" and "has_count g (Suc 0)"
  shows "\<exists>ps ui. ex_expand n keys g = Inr (ps, ui) \<and> has_count ps n"
proof -
  from assms(1) have "keys \<noteq> []" by auto
  with assms expand_count [of g "Suc 0" n] show ?thesis
    by (simp add: ex_expand_def)
qed

text \<open>
  The step on the concrete population, with \<open>num_resampled\<close> omitted: the resampler
  picks the particles 1 and 0, the update keeps them, and both log-weights are 0.
\<close>

lemma ex_step_default:
  "step ex_split 3 ex_state ex_update ex_weight ex_resample None
   = Inr (\<lparr>particles = Node [Leaf (Rows [0, 0]), Leaf (Rows [7, 5])],
           weights = map (\<lambda>l. exp (l - logsumexp [0, 0])) [0, 0]\<rparr>,
          \<lparr>ancestors = [1, 0],
           log_likelihood_increment = logsumexp [0, 0] - ln (real 2),
           update_info = 2\<rparr>)"
proof -
  have "step ex_split 3 ex_state ex_update ex_weight ex_resample None
        = Inr (\<lparr>particles = Node [Leaf (Rows [0, 0]), Leaf (Rows [7, 5])],
                weights = map (\<lambda>l. exp (l - logsumexp [0, 0])) [0, 0]\<rparr>,
               \<lparr>ancestors = [1, 0],
                log_likelihood_increment =
                  logsumexp [0, 0] - ln (real (length (weights ex_state))),
                update_info = 2\<rparr>)"
    by (rule step_InrI [where uk = 6 and rk = 7 and g = "Node [Leaf (Rows [0, 0]), Leaf (Rows [7, 5])]"])
       (simp_all add: ex_state_def default_num_resampled_def ex_split_3 ex_split_6
          ex_resample_7 gather_index_def ex_update_2 ex_weight_2)
  then show ?thesis by (simp add: ex_state_def)
qed

text \<open>
  The same population in waste-free mode: one particle is resampled and the update
  returns two.
\<close>

lemma ex_step_waste_free:
  "step ex_split 3 ex_state (ex_expand 2) ex_weight ex_resample (Some 1)
   = Inr (\<lparr>particles = Node [Leaf (Rows [0, 0]), Leaf (Rows [7, 7])],
           weights = map (\<lambda>l. exp (l - logsumexp [0, 0])) [0, 0]\<rparr>,
          \<lparr>ancestors = [1],
           log_likelihood_increment = logsumexp [0, 0] - ln (real 2),
           update_info = 1\<rparr>)"
proof -
  have r: "ex_resample 7 [1 / 2, 1 / 2] 1 = Inr [1]" by code_simp
  have k: "ex_split 6 (Suc 0) = [6]" by code_simp
  have u: "ex_expand 2 [6] (Node [Leaf (Rows [0]), Leaf (Rows [7])])
           = Inr (Node [Leaf (Rows [0, 0]), Leaf (Rows [7, 7])], 1)"
    by (simp add: ex_expand_def has_count_def upt_rec [of 0] upt_rec [of 1] upt_rec [of "Suc 0"])
  have "step ex_split 3 ex_state (ex_expand 2) ex_weight ex_resample (Some 1)
        = Inr (\<lparr>particles = Node [Leaf (Rows [0, 0]), Leaf (Rows [7, 7])],
                weights = map (\<lambda>l. exp (l - logsumexp [0, 0])) [0, 0]\<rparr>,
               \<lparr>ancestors = [1],
                log_likelihood_increment =
                  logsumexp [0, 0] - ln (real (length (weights ex_state))),
                update_info = 1\<rparr>)"
    by (rule step_InrI [where uk = 6 and rk = 7 and g = "Node [Leaf (Rows [0]), Leaf (Rows [7])]"])
       (simp_all add: ex_state_def default_num_resampled_def ex_split_3 r k u
          gather_index_def ex_weight_def)
  then show ?thesis by (simp add: ex_state_def)
qed

subsection \<open>Rounding to binary32\<close>




















section \<open>Properties of \<open>init\<close>\<close>

lemma uniform_weights:
  "map (\<lambda>w. w / real n) (replicate n (1::real)) = replicate n (1 / real n)"
  by simp

lemma sum_list_uniform: "0 < n \<Longrightarrow> sum_list (replicate n (1 / real n)) = 1"
  by (simp add: sum_list_replicate)

lemma init_first_leaf:
  assumes "tree_leaves ps = Rows xs # rest"
  shows "init ps = Inr \<lparr>particles = ps, weights = replicate (length xs) (1 / real (length xs))\<rparr>"
  using assms by (simp add: init_def)

text \<open>
  C4. For a particle tree whose leaves all have leading dimension \<open>N\<close> with \<open>N \<ge> 1\<close>,
  \<open>init\<close> returns the population of the given particles with \<open>N\<close> weights, each \<open>1/N\<close>,
  and the weights sum to 1.
\<close>

theorem init_uniform:
  assumes "has_count ps N" and "1 \<le> N"
  shows "\<exists>s. init ps = Inr s \<and> particles s = ps
           \<and> weights s = replicate N (1 / real N)
           \<and> length (weights s) = N \<and> sum_list (weights s) = 1"
proof -
  from assms(1) obtain l rest where ls: "tree_leaves ps = l # rest"
    by (auto simp: has_count_def neq_Nil_conv)
  with assms(1) have "leading_dim l = Inr N"
    by (simp add: has_count_def)
  then obtain xs where l: "l = Rows xs" and n: "length xs = N"
    by (cases l) auto
  from ls l n have "init ps = Inr \<lparr>particles = ps, weights = replicate N (1 / real N)\<rparr>"
    using init_first_leaf [of ps xs rest] by simp
  moreover from assms(2) have "sum_list (replicate N (1 / real N)) = 1"
    by (simp add: sum_list_uniform)
  ultimately show ?thesis by simp
qed

theorem init_uniform_witness:
  "has_count (Node [Leaf (Rows [10, 20 :: nat]), Leaf (Rows [30, 40])]) 2 \<and> (1::nat) \<le> 2
   \<and> (\<exists>s. init (Node [Leaf (Rows [10, 20 :: nat]), Leaf (Rows [30, 40])]) = Inr s
        \<and> particles s = Node [Leaf (Rows [10, 20]), Leaf (Rows [30, 40])]
        \<and> weights s = replicate 2 (1 / real 2)
        \<and> length (weights s) = 2 \<and> sum_list (weights s) = 1)"
proof -
  have h: "has_count (Node [Leaf (Rows [10, 20 :: nat]), Leaf (Rows [30, 40])]) 2"
    by (simp add: has_count_def)
  have n: "(1::nat) \<le> 2" by simp
  from init_uniform [OF h n] h n show ?thesis by blast
qed

text \<open>
  C5, as the code has it. \<open>init\<close> reads the first leaf only: whenever the first leaf in
  flattening order has a leading axis of size \<open>N\<close>, it returns the given particles with
  \<open>N\<close> weights \<open>1/N\<close>, whatever the leading dimensions of the other leaves. It raises
  only when there is no first leaf or the first leaf is 0-dimensional, and then an
  \<open>IndexError\<close>.
\<close>

theorem init_reads_first_leaf_only:
  "init ps =
     (case tree_leaves ps of
        [] \<Rightarrow> Inl IndexError
      | Scalar a # rest \<Rightarrow> Inl IndexError
      | Rows xs # rest \<Rightarrow>
          Inr \<lparr>particles = ps, weights = replicate (length xs) (1 / real (length xs))\<rparr>)"
  by (simp add: init_def split: list.splits leaf.splits)

text \<open>
  The claim as stated fails: the two leaves below have leading dimensions 2 and 3, and
  \<open>init\<close> returns a population with two weights.
\<close>

theorem init_shape_mismatch_counterexample:
  "map leading_dim (tree_leaves (Node [Leaf (Rows [1, 2 :: nat]), Leaf (Rows [3, 4, 5])]))
     = [Inr 2, Inr 3]
   \<and> init (Node [Leaf (Rows [1, 2 :: nat]), Leaf (Rows [3, 4, 5])])
     = Inr \<lparr>particles = Node [Leaf (Rows [1, 2]), Leaf (Rows [3, 4, 5])],
            weights = [1 / 2, 1 / 2]\<rparr>"
  by (simp add: init_def)

section \<open>Properties of \<open>step\<close>\<close>

text \<open>
  C1. Whenever \<open>step\<close> returns, the \<open>log_likelihood_increment\<close> of the report is
  \<open>logsumexp log_weights - ln N\<close>, where \<open>log_weights\<close> is what \<open>weight_fn\<close> returns on the
  propagated particles (the particles of the returned population) and \<open>N\<close> is the length
  of the weight vector of the state passed in, whatever \<open>num_resampled\<close> is.
\<close>

theorem step_log_likelihood_increment:
  assumes "step split rng_key state update_fn weight_fn resample_fn num_resampled = Inr (st', info)"
  shows "\<exists>log_weights.
           weight_fn (particles st') = Inr log_weights
           \<and> log_likelihood_increment info
               = logsumexp log_weights - ln (real (length (weights state)))"
  using assms by (elim step_InrE) simp

text \<open>
  In the waste-free run one particle is resampled from a population of two, and the
  increment subtracts \<open>ln 2\<close>.
\<close>

theorem step_log_likelihood_increment_witness:
  "step ex_split 3 ex_state (ex_expand 2) ex_weight ex_resample (Some 1)
     = Inr (\<lparr>particles = Node [Leaf (Rows [0, 0]), Leaf (Rows [7, 7])],
             weights = map (\<lambda>l. exp (l - logsumexp [0, 0])) [0, 0]\<rparr>,
            \<lparr>ancestors = [1],
             log_likelihood_increment = logsumexp [0, 0] - ln (real 2),
             update_info = 1\<rparr>)
   \<and> (\<exists>log_weights.
         ex_weight (Node [Leaf (Rows [0, 0]), Leaf (Rows [7, 7])]) = Inr log_weights
         \<and> logsumexp [0, 0] - ln (real 2)
             = logsumexp log_weights - ln (real (length (weights ex_state))))"
  using step_log_likelihood_increment [OF ex_step_waste_free] ex_step_waste_free
  by simp




text \<open>
  C3. Whenever \<open>step\<close> returns, its result was obtained in this order: \<open>resample_fn\<close> on
  the resampling key, the current weights and the number to resample gave the ancestor
  indices; the particle tree was gathered at them leaf by leaf (the gathered tree has the
  shape of the input tree, and each of its leaves is the gather of the corresponding
  leaf); \<open>update_fn\<close> was applied to the gathered tree; \<open>weight_fn\<close> was applied to what
  \<open>update_fn\<close> returned. Resampling and gather come first: when \<open>resample_fn\<close> or the
  gather raises, that exception is the outcome of \<open>step\<close>, whatever \<open>update_fn\<close> and
  \<open>weight_fn\<close> are.
\<close>

theorem step_phase_order:
  "(\<forall>st' info.
      step split rng_key state update_fn weight_fn resample_fn num_resampled = Inr (st', info) \<longrightarrow>
      (\<exists>uk rk idx g ui lw.
         split rng_key 2 = [uk, rk]
         \<and> resample_fn rk (weights state)
             (default_num_resampled num_resampled (length (weights state))) = Inr idx
         \<and> tree_map (\<lambda>x. index_leaf x idx) (particles state) = Inr g
         \<and> map_tree (\<lambda>_. ()) g = map_tree (\<lambda>_. ()) (particles state)
         \<and> map Inr (tree_leaves g) = map (\<lambda>x. index_leaf x idx) (tree_leaves (particles state))
         \<and> update_fn
             (split uk (nat (default_num_resampled num_resampled (length (weights state))))) g
             = Inr (particles st', ui)
         \<and> weight_fn (particles st') = Inr lw
         \<and> ancestors info = idx \<and> update_info info = ui))
   \<and> (\<forall>uk rk e.
        split rng_key 2 = [uk, rk] \<longrightarrow>
        resample_fn rk (weights state)
          (default_num_resampled num_resampled (length (weights state))) = Inl e \<longrightarrow>
        step split rng_key state update_fn weight_fn resample_fn num_resampled = Inl e)
   \<and> (\<forall>uk rk idx e.
        split rng_key 2 = [uk, rk] \<longrightarrow>
        resample_fn rk (weights state)
          (default_num_resampled num_resampled (length (weights state))) = Inr idx \<longrightarrow>
        tree_map (\<lambda>x. index_leaf x idx) (particles state) = Inl e \<longrightarrow>
        step split rng_key state update_fn weight_fn resample_fn num_resampled = Inl e)"
proof (intro conjI allI impI)
  fix st' info
  assume "step split rng_key state update_fn weight_fn resample_fn num_resampled = Inr (st', info)"
  then show "\<exists>uk rk idx g ui lw.
         split rng_key 2 = [uk, rk]
         \<and> resample_fn rk (weights state)
             (default_num_resampled num_resampled (length (weights state))) = Inr idx
         \<and> tree_map (\<lambda>x. index_leaf x idx) (particles state) = Inr g
         \<and> map_tree (\<lambda>_. ()) g = map_tree (\<lambda>_. ()) (particles state)
         \<and> map Inr (tree_leaves g) = map (\<lambda>x. index_leaf x idx) (tree_leaves (particles state))
         \<and> update_fn
             (split uk (nat (default_num_resampled num_resampled (length (weights state))))) g
             = Inr (particles st', ui)
         \<and> weight_fn (particles st') = Inr lw
         \<and> ancestors info = idx \<and> update_info info = ui"
  proof (elim step_InrE)
    fix uk rk idx g ui lw
    assume a: "split rng_key 2 = [uk, rk]"
      "resample_fn rk (weights state)
         (default_num_resampled num_resampled (length (weights state))) = Inr idx"
      "tree_map (\<lambda>x. index_leaf x idx) (particles state) = Inr g"
      "update_fn (split uk (nat (default_num_resampled num_resampled (length (weights state))))) g
         = Inr (particles st', ui)"
      "weight_fn (particles st') = Inr lw"
      "info = \<lparr>ancestors = idx,
               log_likelihood_increment = logsumexp lw - ln (real (length (weights state))),
               update_info = ui\<rparr>"
    from tree_map_shape_leaves(1) [OF a(3)] a show ?thesis
      by (intro exI [of _ uk] exI [of _ rk] exI [of _ idx] exI [of _ g] exI [of _ ui]
            exI [of _ lw]) simp
  qed
qed (simp_all add: step_resample_raises step_gather_raises)

theorem step_phase_order_witness:
  "step ex_split 3 ex_state ex_update ex_weight ex_resample None
     = Inr (\<lparr>particles = Node [Leaf (Rows [0, 0]), Leaf (Rows [7, 5])],
             weights = map (\<lambda>l. exp (l - logsumexp [0, 0])) [0, 0]\<rparr>,
            \<lparr>ancestors = [1, 0],
             log_likelihood_increment = logsumexp [0, 0] - ln (real 2),
             update_info = 2\<rparr>)
   \<and> ex_split 3 2 = [6, 7]
   \<and> ex_resample 7 [1 / 2, 1 / 2] 2 = Inr [1, 0]
   \<and> tree_map (\<lambda>x. index_leaf x [1, 0]) (Node [Leaf (Rows [0, 0]), Leaf (Rows [5, 7 :: real])])
       = Inr (Node [Leaf (Rows [0, 0]), Leaf (Rows [7, 5])])
   \<and> ex_update (ex_split 6 2) (Node [Leaf (Rows [0, 0]), Leaf (Rows [7, 5])])
       = Inr (Node [Leaf (Rows [0, 0]), Leaf (Rows [7, 5])], 2)
   \<and> ex_weight (Node [Leaf (Rows [0, 0]), Leaf (Rows [7, 5])]) = Inr [0, 0]
   \<and> ex_resample 7 [1 / 2, 1 / 2] (- 1) = Inl (Raised ''resample'')
   \<and> step ex_split 3 ex_state ex_update ex_weight ex_resample (Some (- 1))
       = Inl (Raised ''resample'')
   \<and> tree_map (\<lambda>x. index_leaf x [1, 0]) (Node [Leaf (Scalar (4 :: real))]) = Inl IndexError
   \<and> step ex_split 3 ex_scalar_state ex_update ex_weight ex_resample None = Inl IndexError"
proof -
  have a: "step ex_split 3 ex_state ex_update ex_weight ex_resample (Some (- 1))
           = Inl (Raised ''resample'')"
    using step_phase_order [of ex_split 3 ex_state ex_update ex_weight ex_resample "Some (- 1)"]
      ex_split_3 ex_resample_negative
    by (simp add: default_num_resampled_def ex_state_def)
  have b: "step ex_split 3 ex_scalar_state ex_update ex_weight ex_resample None = Inl IndexError"
    using step_phase_order [of ex_split 3 ex_scalar_state ex_update ex_weight ex_resample None]
      ex_split_3 ex_resample_7 ex_scalar_gather
    by (simp add: default_num_resampled_def ex_scalar_state_def)
  from a b show ?thesis
    by (simp add: ex_step_default ex_split_3 ex_split_6 ex_resample_7 gather_index_def
          ex_update_2 ex_weight_2 ex_resample_negative)
qed

text \<open>
  C8. Whenever \<open>step\<close> returns, the \<open>ancestors\<close> of the report are the index vector that
  \<open>resample_fn\<close> returned on the resampling key (the second key of the split), the
  current weights and \<open>num_resampled\<close> (or its default). Hence, if \<open>resample_fn\<close> always
  returns as many indices as requested, each in \<open>[0, N)\<close> for \<open>N\<close> weights, then
  \<open>ancestors\<close> has length \<open>num_resampled\<close> and its entries lie in \<open>[0, N)\<close> for the prior
  population size \<open>N\<close>.
\<close>

theorem step_ancestors:
  assumes "step split rng_key state update_fn weight_fn resample_fn num_resampled = Inr (st', info)"
  shows "\<exists>updating_key resampling_key.
           split rng_key 2 = [updating_key, resampling_key]
           \<and> resample_fn resampling_key (weights state)
               (default_num_resampled num_resampled (length (weights state)))
               = Inr (ancestors info)
           \<and> ((\<forall>k w m idx. resample_fn k w m = Inr idx \<longrightarrow>
                   int (length idx) = m \<and> list_all (\<lambda>i. 0 \<le> i \<and> i < int (length w)) idx)
               \<longrightarrow> int (length (ancestors info))
                     = default_num_resampled num_resampled (length (weights state))
                   \<and> list_all (\<lambda>i. 0 \<le> i \<and> i < int (length (weights state)))
                       (ancestors info))"
  using assms by (elim step_InrE) auto

theorem step_ancestors_witness:
  "step ex_split 3 ex_state (ex_expand 2) ex_weight ex_resample (Some 1)
     = Inr (\<lparr>particles = Node [Leaf (Rows [0, 0]), Leaf (Rows [7, 7])],
             weights = map (\<lambda>l. exp (l - logsumexp [0, 0])) [0, 0]\<rparr>,
            \<lparr>ancestors = [1],
             log_likelihood_increment = logsumexp [0, 0] - ln (real 2),
             update_info = 1\<rparr>)
   \<and> ex_split 3 2 = [6, 7]
   \<and> ex_resample 7 (weights ex_state) 1 = Inr [1]
   \<and> int (length [1 :: int]) = 1
   \<and> list_all (\<lambda>i. 0 \<le> i \<and> i < int (length (weights ex_state))) [1]"
proof -
  have c: "\<forall>k w m idx. ex_resample k w m = Inr idx \<longrightarrow>
         int (length idx) = m \<and> list_all (\<lambda>i. 0 \<le> i \<and> i < int (length w)) idx"
    using ex_resample_contract by blast
  have w: "weights ex_state = [1 / 2, 1 / 2]" by (simp add: ex_state_def)
  from step_ancestors [OF ex_step_waste_free] c ex_split_3 show ?thesis
    by (simp add: ex_step_waste_free default_num_resampled_def w)
qed

text \<open>
  C6. \<open>step\<close> adds no nondeterminism of its own: when each injected callable has at most
  one outcome for given arguments, any two outcomes of \<open>step\<close> on the same key, state,
  \<open>num_resampled\<close> and callables are equal, be they results or exceptions.
\<close>

theorem step_deterministic:
  assumes "\<forall>keys g y z. update_fn keys g y \<longrightarrow> update_fn keys g z \<longrightarrow> y = z"
    and "\<forall>ps y z. weight_fn ps y \<longrightarrow> weight_fn ps z \<longrightarrow> y = z"
    and "\<forall>k ws m y z. resample_fn k ws m y \<longrightarrow> resample_fn k ws m z \<longrightarrow> y = z"
    and "step_rel split rng_key state update_fn weight_fn resample_fn num_resampled out1"
    and "step_rel split rng_key state update_fn weight_fn resample_fn num_resampled out2"
  shows "out1 = out2"
proof -
  have u: "z = y" if "update_fn keys g y" "update_fn keys g z" for keys g y z
    using that assms(1) by blast
  have w: "z = y" if "weight_fn ps y" "weight_fn ps z" for ps y z
    using that assms(2) by blast
  have r: "z = y" if "resample_fn k ws m y" "resample_fn k ws m z" for k ws m y z
    using that assms(3) by blast
  from step_rel_functional [OF u w r assms(4)] step_rel_functional [OF u w r assms(5)]
  show ?thesis by simp
qed

text \<open>
  On the graphs of the concrete functions both the evaluated result and the value of
  \<open>step\<close> are outcomes, and they are equal.
\<close>

theorem step_deterministic_witness:
  "step_rel ex_split 3 ex_state (\<lambda>keys g y. y = ex_update keys g) (\<lambda>ps y. y = ex_weight ps)
        (\<lambda>k ws m y. y = ex_resample k ws m) None
        (Inr (\<lparr>particles = Node [Leaf (Rows [0, 0]), Leaf (Rows [7, 5])],
               weights = map (\<lambda>l. exp (l - logsumexp [0, 0])) [0, 0]\<rparr>,
              \<lparr>ancestors = [1, 0],
               log_likelihood_increment = logsumexp [0, 0] - ln (real 2),
               update_info = 2\<rparr>))
   \<and> step_rel ex_split 3 ex_state (\<lambda>keys g y. y = ex_update keys g) (\<lambda>ps y. y = ex_weight ps)
        (\<lambda>k ws m y. y = ex_resample k ws m) None
        (step ex_split 3 ex_state ex_update ex_weight ex_resample None)
   \<and> Inr (\<lparr>particles = Node [Leaf (Rows [0, 0]), Leaf (Rows [7, 5])],
             weights = map (\<lambda>l. exp (l - logsumexp [0, 0])) [0, 0]\<rparr>,
            \<lparr>ancestors = [1, 0],
             log_likelihood_increment = logsumexp [0, 0] - ln (real 2),
             update_info = 2\<rparr>)
       = step ex_split 3 ex_state ex_update ex_weight ex_resample None"
proof -
  have u: "\<forall>keys g y z. y = ex_update keys g \<longrightarrow> z = ex_update keys g \<longrightarrow> y = z" by simp
  have w: "\<forall>ps y z. y = ex_weight ps \<longrightarrow> z = ex_weight ps \<longrightarrow> y = z" by simp
  have r: "\<forall>k ws m y z. y = ex_resample k ws m \<longrightarrow> z = ex_resample k ws m \<longrightarrow> y = z" by simp
  have b: "step_rel ex_split 3 ex_state (\<lambda>keys g y. y = ex_update keys g)
             (\<lambda>ps y. y = ex_weight ps) (\<lambda>k ws m y. y = ex_resample k ws m) None
             (step ex_split 3 ex_state ex_update ex_weight ex_resample None)"
    by (rule step_rel_graph)
  have a: "step_rel ex_split 3 ex_state (\<lambda>keys g y. y = ex_update keys g)
             (\<lambda>ps y. y = ex_weight ps) (\<lambda>k ws m y. y = ex_resample k ws m) None
             (Inr (\<lparr>particles = Node [Leaf (Rows [0, 0]), Leaf (Rows [7, 5])],
                    weights = map (\<lambda>l. exp (l - logsumexp [0, 0])) [0, 0]\<rparr>,
                   \<lparr>ancestors = [1, 0],
                    log_likelihood_increment = logsumexp [0, 0] - ln (real 2),
                    update_info = 2\<rparr>))"
    using b unfolding ex_step_default .
  from step_deterministic [OF u w r a b] a b show ?thesis by blast
qed

text \<open>
  C7. With \<open>num_resampled\<close> omitted, \<open>step\<close> is \<open>step\<close> with \<open>num_resampled = N\<close>, the length
  of the current weight vector. If moreover a split into \<open>n\<close> keys has \<open>n\<close> keys,
  \<open>update_fn\<close> returns as many particles as it is given keys and \<open>weight_fn\<close> returns one
  log-weight per particle, then a returned population has \<open>N\<close> particles and \<open>N\<close> weights.
\<close>

theorem step_default_preserves_size:
  assumes "\<forall>k n. length (split k n) = n"
    and "\<forall>keys g ps ui. update_fn keys g = Inr (ps, ui) \<longrightarrow> has_count ps (length keys)"
    and "\<forall>ps n lw. has_count ps n \<longrightarrow> weight_fn ps = Inr lw \<longrightarrow> length lw = n"
    and "step split rng_key state update_fn weight_fn resample_fn None = Inr (st', info)"
  shows "step split rng_key state update_fn weight_fn resample_fn None
           = step split rng_key state update_fn weight_fn resample_fn
               (Some (int (length (weights state))))
         \<and> has_count (particles st') (length (weights state))
         \<and> length (weights st') = length (weights state)"
proof -
  have same: "step split rng_key state update_fn weight_fn resample_fn None
           = step split rng_key state update_fn weight_fn resample_fn
               (Some (int (length (weights state))))"
    unfolding step_def Let_def default_num_resampled_def option.case by (rule refl)
  from assms(4) obtain uk g ui lw where
    u: "update_fn (split uk (length (weights state))) g = Inr (particles st', ui)"
    and w: "weight_fn (particles st') = Inr lw"
    and ws: "weights st' = map (\<lambda>l. exp (l - logsumexp lw)) lw"
    by (elim step_InrE) (simp add: default_num_resampled_def)
  from u assms(1,2) have c: "has_count (particles st') (length (weights state))"
    by (metis)
  with w assms(3) have "length lw = length (weights state)" by blast
  with ws c same show ?thesis by simp
qed

theorem step_default_preserves_size_witness:
  "(\<forall>k n. length (ex_split k n) = n)
   \<and> step ex_split 3 ex_state ex_update ex_weight ex_resample None
       = Inr (\<lparr>particles = Node [Leaf (Rows [0, 0]), Leaf (Rows [7, 5])],
               weights = map (\<lambda>l. exp (l - logsumexp [0, 0])) [0, 0]\<rparr>,
              \<lparr>ancestors = [1, 0],
               log_likelihood_increment = logsumexp [0, 0] - ln (real 2),
               update_info = 2\<rparr>)
   \<and> step ex_split 3 ex_state ex_update ex_weight ex_resample None
       = step ex_split 3 ex_state ex_update ex_weight ex_resample
           (Some (int (length (weights ex_state))))
   \<and> has_count (Node [Leaf (Rows [0, 0]), Leaf (Rows [7, 5 :: real])]) (length (weights ex_state))
   \<and> length (map (\<lambda>l. exp (l - logsumexp [0, 0])) [0, 0 :: real]) = length (weights ex_state)"
proof -
  have s: "\<forall>k n. length (ex_split k n) = n" by (simp add: ex_split_length)
  have u: "\<forall>keys g ps ui. ex_update keys g = Inr (ps, ui) \<longrightarrow> has_count ps (length keys)"
    by (auto simp: ex_update_def split: if_splits)
  have w: "\<forall>ps n lw. has_count ps n \<longrightarrow> ex_weight ps = Inr lw \<longrightarrow> length lw = n"
    using ex_weight_count by fastforce
  from step_default_preserves_size [OF s u w ex_step_default] s ex_step_default
  show ?thesis by simp
qed

text \<open>
  C9. Waste-free mode. Let the population have \<open>N\<close> particles and \<open>N\<close> weights and let
  \<open>0 \<le> M < N\<close>. If the resampler returns \<open>M\<close> indices, \<open>update_fn\<close> returns \<open>N\<close> particles
  from \<open>M\<close> keys and \<open>M\<close> particles, and \<open>weight_fn\<close> returns \<open>N\<close> log-weights on \<open>N\<close>
  particles, then \<open>step\<close> with \<open>num_resampled = M\<close> returns: the \<open>M\<close> resampled indices are
  the ancestors, the gathered tree has \<open>M\<close> particles, the returned particles are the \<open>N\<close>
  particles that \<open>update_fn\<close> made of them, and the returned weights are the \<open>N\<close> normalised
  weights of the log-weights that \<open>weight_fn\<close> gave for these. No exit of \<open>step\<close> compares
  the number of returned particles with \<open>num_resampled\<close>.
\<close>

theorem step_waste_free:
  assumes len: "\<forall>k n. length (split k n) = n"
    and M: "0 \<le> M" "M < int (length (weights state))"
    and inv: "has_count (particles state) (length (weights state))"
    and res: "\<forall>k. \<exists>idx. resample_fn k (weights state) M = Inr idx \<and> int (length idx) = M"
    and upd: "\<forall>keys g. length keys = nat M \<longrightarrow> has_count g (nat M) \<longrightarrow>
                (\<exists>ps ui. update_fn keys g = Inr (ps, ui)
                   \<and> has_count ps (length (weights state)))"
    and wgt: "\<forall>ps. has_count ps (length (weights state)) \<longrightarrow>
                (\<exists>lw. weight_fn ps = Inr lw \<and> length lw = length (weights state))"
  shows "\<exists>updating_key resampling_key idx gathered new_particles upd_info log_weights.
           split rng_key 2 = [updating_key, resampling_key]
           \<and> resample_fn resampling_key (weights state) M = Inr idx
           \<and> int (length idx) = M
           \<and> tree_map (\<lambda>x. index_leaf x idx) (particles state) = Inr gathered
           \<and> has_count gathered (nat M)
           \<and> update_fn (split updating_key (nat M)) gathered = Inr (new_particles, upd_info)
           \<and> has_count new_particles (length (weights state))
           \<and> weight_fn new_particles = Inr log_weights
           \<and> length log_weights = length (weights state)
           \<and> step split rng_key state update_fn weight_fn resample_fn (Some M)
               = Inr (\<lparr>particles = new_particles,
                       weights = map (\<lambda>l. exp (l - logsumexp log_weights)) log_weights\<rparr>,
                      \<lparr>ancestors = idx,
                       log_likelihood_increment =
                         logsumexp log_weights - ln (real (length (weights state))),
                       update_info = upd_info\<rparr>)"
proof -
  from len have "length (split rng_key 2) = 2" by blast
  then obtain uk rk where two: "split rng_key 2 = [uk, rk]"
    by (auto simp: length_Suc_conv numeral_2_eq_2)
  from res obtain idx where
    idx: "resample_fn rk (weights state) M = Inr idx" and n: "int (length idx) = M"
    by blast
  from M have pos: "0 < length (weights state)" by linarith
  with inv obtain g where
    g: "tree_map (\<lambda>x. index_leaf x idx) (particles state) = Inr g"
    and gc: "has_count g (length idx)"
    using gather_count [of "particles state" "length (weights state)" idx] by blast
  from n have nat: "nat M = length idx" by linarith
  from len have "length (split uk (nat M)) = nat M" by blast
  with upd gc nat obtain ps ui where
    u: "update_fn (split uk (nat M)) g = Inr (ps, ui)"
    and pc: "has_count ps (length (weights state))"
    by metis
  from wgt pc obtain lw where
    w: "weight_fn ps = Inr lw" and l: "length lw = length (weights state)"
    by blast
  from l pos have ne: "lw \<noteq> []" by auto
  have "step split rng_key state update_fn weight_fn resample_fn (Some M)
        = Inr (\<lparr>particles = ps, weights = map (\<lambda>l. exp (l - logsumexp lw)) lw\<rparr>,
               \<lparr>ancestors = idx,
                log_likelihood_increment = logsumexp lw - ln (real (length (weights state))),
                update_info = ui\<rparr>)"
    using two idx g M(1) u w ne
    by (intro step_InrI [where uk = uk and rk = rk and g = g])
       (simp_all add: default_num_resampled_def)
  with two idx n g gc nat u pc w l show ?thesis by auto
qed

theorem step_waste_free_witness:
  "(\<forall>k n. length (ex_split k n) = n)
   \<and> (0 :: int) \<le> 1 \<and> 1 < int (length (weights ex_state))
   \<and> has_count (particles ex_state) (length (weights ex_state))
   \<and> (\<forall>k. \<exists>idx. ex_resample k (weights ex_state) 1 = Inr idx \<and> int (length idx) = 1)
   \<and> (\<exists>updating_key resampling_key idx gathered new_particles upd_info log_weights.
         ex_split 3 2 = [updating_key, resampling_key]
         \<and> ex_resample resampling_key (weights ex_state) 1 = Inr idx
         \<and> int (length idx) = 1
         \<and> tree_map (\<lambda>x. index_leaf x idx) (particles ex_state) = Inr gathered
         \<and> has_count gathered (nat 1)
         \<and> ex_expand 2 (ex_split updating_key (nat 1)) gathered = Inr (new_particles, upd_info)
         \<and> has_count new_particles (length (weights ex_state))
         \<and> ex_weight new_particles = Inr log_weights
         \<and> length log_weights = length (weights ex_state)
         \<and> step ex_split 3 ex_state (ex_expand 2) ex_weight ex_resample (Some 1)
             = Inr (\<lparr>particles = new_particles,
                     weights = map (\<lambda>l. exp (l - logsumexp log_weights)) log_weights\<rparr>,
                    \<lparr>ancestors = idx,
                     log_likelihood_increment =
                       logsumexp log_weights - ln (real (length (weights ex_state))),
                     update_info = upd_info\<rparr>))
   \<and> step ex_split 3 ex_state (ex_expand 2) ex_weight ex_resample (Some 1)
       = Inr (\<lparr>particles = Node [Leaf (Rows [0, 0]), Leaf (Rows [7, 7])],
               weights = map (\<lambda>l. exp (l - logsumexp [0, 0])) [0, 0]\<rparr>,
              \<lparr>ancestors = [1],
               log_likelihood_increment = logsumexp [0, 0] - ln (real 2),
               update_info = 1\<rparr>)"
proof -
  have wl: "length (weights ex_state) = 2" by (simp add: ex_state_def)
  have s: "\<forall>k n. length (ex_split k n) = n" by (simp add: ex_split_length)
  have m0: "(0 :: int) \<le> 1" by simp
  have m1: "1 < int (length (weights ex_state))" by (simp add: wl)
  have inv: "has_count (particles ex_state) (length (weights ex_state))"
    by (simp add: ex_state_def has_count_def)
  have r: "\<forall>k. \<exists>idx. ex_resample k (weights ex_state) 1 = Inr idx \<and> int (length idx) = 1"
    by (simp add: ex_resample_def ex_state_def)
  have u: "\<forall>keys g. length keys = nat 1 \<longrightarrow> has_count g (nat 1) \<longrightarrow>
         (\<exists>ps ui. ex_expand 2 keys g = Inr (ps, ui) \<and> has_count ps (length (weights ex_state)))"
    using ex_expand_contract [where n = 2] by (simp add: wl)
  have w: "\<forall>ps. has_count ps (length (weights ex_state)) \<longrightarrow>
         (\<exists>lw. ex_weight ps = Inr lw \<and> length lw = length (weights ex_state))"
    using ex_weight_count by blast
  note c = step_waste_free [where split = ex_split and M = 1 and state = ex_state
      and resample_fn = ex_resample and update_fn = "ex_expand 2" and weight_fn = ex_weight
      and rng_key = 3, OF s m0 m1 inv r u w]
  from c s m0 m1 inv r ex_step_waste_free show ?thesis
    by (intro conjI)
qed

text \<open>
  C10. Let two states have the same weights, and let their particle trees agree at the
  indices that \<open>resample_fn\<close> returns (the same shape, and at every returned index the
  gather reads the same row from corresponding leaves). Then \<open>step\<close> has the same outcome
  on both, for the same key, \<open>num_resampled\<close> and injected functions.
\<close>

theorem step_ignores_unselected:
  assumes "weights s1 = weights s2"
    and "\<forall>updating_key resampling_key idx.
           split rng_key 2 = [updating_key, resampling_key] \<longrightarrow>
           resample_fn resampling_key (weights s1)
             (default_num_resampled num_resampled (length (weights s1))) = Inr idx \<longrightarrow>
           agree_at idx (particles s1) (particles s2)"
  shows "step split rng_key s1 update_fn weight_fn resample_fn num_resampled
         = step split rng_key s2 update_fn weight_fn resample_fn num_resampled"
proof (cases "random_split split rng_key 2")
  case (Inl e)
  then show ?thesis by (simp add: step_def)
next
  case (Inr ks)
  show ?thesis
  proof (cases "\<exists>uk rk. ks = [uk, rk]")
    case False
    with Inr show ?thesis by (auto simp: step_def split: list.splits)
  next
    case True
    then obtain uk rk where ks: "ks = [uk, rk]" by blast
    with Inr have two: "split rng_key 2 = [uk, rk]"
      by (simp add: random_split_def)
    show ?thesis
    proof (cases "resample_fn rk (weights s1)
                    (default_num_resampled num_resampled (length (weights s1)))")
      case (Inl e)
      with Inr ks assms(1) show ?thesis by (simp add: step_def Let_def)
    next
      case r: (Inr idx)
      with assms(2) two have "agree_at idx (particles s1) (particles s2)" by blast
      then have "tree_map (\<lambda>x. index_leaf x idx) (particles s1)
                 = tree_map (\<lambda>x. index_leaf x idx) (particles s2)"
        by (rule agree_at_gather(1))
      with Inr ks r assms(1) show ?thesis by (simp add: step_def Let_def)
    qed
  qed
qed

theorem step_ignores_unselected_witness:
  "weights ex_state = weights ex_state2
   \<and> ex_split 3 2 = [6, 7]
   \<and> ex_resample 7 (weights ex_state) 1 = Inr [1]
   \<and> agree_at [1] (particles ex_state) (particles ex_state2)
   \<and> particles ex_state \<noteq> particles ex_state2
   \<and> step ex_split 3 ex_state (ex_expand 2) ex_weight ex_resample (Some 1)
       = step ex_split 3 ex_state2 (ex_expand 2) ex_weight ex_resample (Some 1)"
proof -
  have w: "weights ex_state = weights ex_state2" by (simp add: ex_state_def ex_state2_def)
  have r: "ex_resample 7 (weights ex_state) 1 = Inr [1]" by (simp add: ex_state_def ex_resample_one)
  have a: "agree_at [1] (particles ex_state) (particles ex_state2)"
    by (simp add: ex_state_def ex_state2_def row_at_def gather_index_def)
  have d: "particles ex_state \<noteq> particles ex_state2" by (simp add: ex_state_def ex_state2_def)
  have h: "\<forall>updating_key resampling_key idx.
           ex_split 3 2 = [updating_key, resampling_key] \<longrightarrow>
           ex_resample resampling_key (weights ex_state)
             (default_num_resampled (Some 1) (length (weights ex_state))) = Inr idx \<longrightarrow>
           agree_at idx (particles ex_state) (particles ex_state2)"
    using r a by (simp add: ex_split_3 default_num_resampled_def)
  from step_ignores_unselected [where split = ex_split and rng_key = 3 and resample_fn = ex_resample
      and num_resampled = "Some 1" and ?s1.0 = ex_state and ?s2.0 = ex_state2
      and update_fn = "ex_expand 2" and weight_fn = ex_weight, OF w h] w r a d ex_split_3
  show ?thesis by simp
qed

end
